theory Spec2Isabelle
  imports Main
begin

section \<open>Python text\<close>

text \<open>
  A Python \<open>str\<close> is a sequence of Unicode code points, and \<open>len\<close>, indexing, the
  regular expression and \<open>splitlines\<close> all count code points. A \<open>str\<close> is therefore a
  list of code points, each a natural number; \<open>lit\<close> turns an ASCII literal into one.
\<close>

type_synonym pystr = "nat list"

type_synonym pybytes = "nat list"

definition lit :: "string \<Rightarrow> pystr" where
  "lit s = map of_char s"

text \<open>\<open>sep.join(xs)\<close>: the elements of \<open>xs\<close> with \<open>sep\<close> between neighbours.\<close>

fun join :: "pystr \<Rightarrow> pystr list \<Rightarrow> pystr" where
  "join sep [] = []"
| "join sep [x] = x"
| "join sep (x # y # ys) = x @ sep @ join sep (y # ys)"

text \<open>
  \<open>str.splitlines()\<close> breaks the text at \<open>\n\<close>, \<open>\r\<close>, \<open>\r\n\<close> (one break), \<open>\v\<close>,
  \<open>\f\<close>, \<open>\x1c\<close>, \<open>\x1d\<close>, \<open>\x1e\<close>, \<open>\x85\<close>, U+2028 and U+2029. The breaks are
  dropped, and text that ends in a break has no empty last line.
\<close>

definition is_linebreak :: "nat \<Rightarrow> bool" where
  "is_linebreak c \<longleftrightarrow> c \<in> {10, 11, 12, 13, 28, 29, 30, 133, 8232, 8233}"

fun splitlines_from :: "pystr \<Rightarrow> pystr \<Rightarrow> pystr list" where
  "splitlines_from cur [] = (if cur = [] then [] else [cur])"
| "splitlines_from cur (c # cs) =
     (if c = 13 then
        (case cs of
           [] \<Rightarrow> [cur]
         | d # ds \<Rightarrow> if d = 10 then cur # splitlines_from [] ds
                    else cur # splitlines_from [] (d # ds))
      else if is_linebreak c then cur # splitlines_from [] cs
      else splitlines_from (cur @ [c]) cs)"

definition splitlines :: "pystr \<Rightarrow> pystr list" where
  "splitlines s = splitlines_from [] s"

section \<open>Faults\<close>

text \<open>
  The exceptions that can leave \<open>load_dbg_file\<close>. None of them is caught in the plugin,
  so each ends the command where it is raised.
\<close>

datatype fault =
    AttributeError
  | ValueError
  | CalledProcessError
  | UnicodeDecodeError
  | DemangleError

section \<open>The pattern and the address\<close>

text \<open>
  \<open>rex = re.compile("^([FGS]) ([0-9a-f]{8}) (.*)$")\<close> and \<open>rex.match(line)\<close>. The
  pattern is anchored, so the groups sit at fixed positions: one tag character, a
  space, eight characters of \<open>[0-9a-f]\<close>, a space, and the rest. Without the DOTALL flag
  \<open>.\<close> matches everything but \<open>\n\<close>; without the MULTILINE flag \<open>$\<close> matches at the end
  of the text or just before a \<open>\n\<close> that ends it. \<open>None\<close> is Python's \<open>None\<close>: no match.
\<close>

definition is_tag :: "nat \<Rightarrow> bool" where
  "is_tag c \<longleftrightarrow> c = of_char CHR ''F'' \<or> c = of_char CHR ''G'' \<or> c = of_char CHR ''S''"

definition is_lower_hex :: "nat \<Rightarrow> bool" where
  "is_lower_hex c \<longleftrightarrow>
     (of_char CHR ''0'' \<le> c \<and> c \<le> of_char CHR ''9'') \<or>
     (of_char CHR ''a'' \<le> c \<and> c \<le> of_char CHR ''f'')"

definition rex_tail :: "pystr \<Rightarrow> pystr option" where
  "rex_tail rest =
     (if 10 \<notin> set rest then Some rest
      else if last rest = 10 \<and> 10 \<notin> set (butlast rest) then Some (butlast rest)
      else None)"

definition rex_match :: "pystr \<Rightarrow> (pystr \<times> pystr \<times> pystr) option" where
  "rex_match line =
     (if 11 \<le> length line \<and> is_tag (line ! 0) \<and> line ! 1 = of_char CHR '' '' \<and>
         list_all is_lower_hex (take 8 (drop 2 line)) \<and> line ! 10 = of_char CHR '' ''
      then (case rex_tail (drop 11 line) of
              None \<Rightarrow> None
            | Some name \<Rightarrow> Some (take 1 line, take 8 (drop 2 line), name))
      else None)"

text \<open>
  \<open>int(addr, 16)\<close> on a string of hexadecimal digits, read from the left. Python's
  \<open>int\<close> also takes a sign, a \<open>0x\<close> prefix, underscores and surrounding blanks; the
  second group of the pattern never has any of them, and they are not modelled.
\<close>

definition hex_digit :: "nat \<Rightarrow> nat option" where
  "hex_digit c =
     (if of_char CHR ''0'' \<le> c \<and> c \<le> of_char CHR ''9'' then Some (c - of_char CHR ''0'')
      else if of_char CHR ''a'' \<le> c \<and> c \<le> of_char CHR ''f'' then Some (c - of_char CHR ''a'' + 10)
      else if of_char CHR ''A'' \<le> c \<and> c \<le> of_char CHR ''F'' then Some (c - of_char CHR ''A'' + 10)
      else None)"

fun int16_from :: "int \<Rightarrow> pystr \<Rightarrow> fault + int" where
  "int16_from acc [] = Inr acc"
| "int16_from acc (c # cs) =
     (case hex_digit c of
        None \<Rightarrow> Inl ValueError
      | Some d \<Rightarrow> int16_from (16 * acc + int d) cs)"

definition int16 :: "pystr \<Rightarrow> fault + int" where
  "int16 s = (if s = [] then Inl ValueError else int16_from 0 s)"

section \<open>The host and the services\<close>

text \<open>
  The binary view \<open>bv\<close> gives the base address \<open>bv.start\<close> and the architecture
  \<open>bv.arch\<close>. Python integers are unbounded, so addresses are \<open>int\<close>.
\<close>

record 'arch bv =
  start :: int
  arch :: 'arch

datatype SymbolType = FunctionSymbol | DataSymbol

text \<open>\<open>Symbol(sym_type, addr, short_name, raw_name=...)\<close>.\<close>

datatype symbol = Symbol (sym_type: SymbolType) (sym_addr: int) (short_name: pystr) (raw_name: pystr)

text \<open>
  The demangler returns a name that is either one string or a list of components.
\<close>

datatype mangled = Flat pystr | Parts "pystr list"

text \<open>
  Every call that leaves the plugin is recorded, in order. The host's analysis model is
  changed by nothing but the last four calls, so the record of calls is the state that
  the plugin threads through: an unchanged record is an untouched host.
\<close>

datatype ('arch, 'ty) call =
    CheckOutput "pystr list"
  | DemangleMs 'arch pystr
  | CreateUserFunction int
  | DefineUserSymbol symbol
  | SetFunctionType int 'ty
  | SetCommentAt int pystr

fun is_create :: "('arch, 'ty) call \<Rightarrow> bool" where
  "is_create (CreateUserFunction a) = True"
| "is_create c = False"

fun is_define :: "('arch, 'ty) call \<Rightarrow> bool" where
  "is_define (DefineUserSymbol s) = True"
| "is_define c = False"

fun is_set_type :: "('arch, 'ty) call \<Rightarrow> bool" where
  "is_set_type (SetFunctionType a t) = True"
| "is_set_type c = False"

fun is_comment :: "('arch, 'ty) call \<Rightarrow> bool" where
  "is_comment (SetCommentAt a s) = True"
| "is_comment c = False"

fun is_subprocess :: "('arch, 'ty) call \<Rightarrow> bool" where
  "is_subprocess (CheckOutput argv) = True"
| "is_subprocess c = False"

text \<open>The calls that change the host's analysis model, and the address each one names.\<close>

definition is_mutation :: "('arch, 'ty) call \<Rightarrow> bool" where
  "is_mutation c \<longleftrightarrow> is_create c \<or> is_define c \<or> is_set_type c \<or> is_comment c"

fun call_addr :: "('arch, 'ty) call \<Rightarrow> int option" where
  "call_addr (CreateUserFunction a) = Some a"
| "call_addr (DefineUserSymbol s) = Some (sym_addr s)"
| "call_addr (SetFunctionType a t) = Some a"
| "call_addr (SetCommentAt a s) = Some a"
| "call_addr c = None"

text \<open>
  \<open>bv.get_function_at(addr)\<close> returns the function at \<open>addr\<close>, or \<open>None\<close> when there is
  none. The host's contract for \<open>create_user_function\<close> is taken to be that the function
  exists afterwards.
\<close>

definition get_function_at :: "('arch, 'ty) call list \<Rightarrow> int \<Rightarrow> int option" where
  "get_function_at tr a = (if CreateUserFunction a \<in> set tr then Some a else None)"

text \<open>
  What the plugin cannot compute itself: the file dialog
  (\<open>interaction.get_open_filename_input(title, filter)\<close>, \<open>None\<close> when cancelled), the
  subprocess (\<open>subprocess.check_output(argv)\<close>), the decoding of its output
  (\<open>bytes.decode()\<close>) and the demangler (\<open>demangle.demangle_ms(arch, name)\<close>, a type
  descriptor or \<open>None\<close>, and a name). Each can raise.
\<close>

record ('arch, 'ty) env =
  get_open_filename_input :: "pystr \<Rightarrow> pystr \<Rightarrow> pystr option"
  check_output :: "pystr list \<Rightarrow> fault + pybytes"
  decode :: "pybytes \<Rightarrow> fault + pystr"
  demangle_ms :: "'arch \<Rightarrow> pystr \<Rightarrow> fault + ('ty option \<times> mangled)"

section \<open>The command\<close>

text \<open>
  \<open>if type(mangle_name) == list: mangle_name = "::".join(mangle_name)\<close>.
\<close>

fun joined_name :: "mangled \<Rightarrow> pystr" where
  "joined_name (Parts xs) = join (lit ''::'') xs"
| "joined_name (Flat s) = s"

text \<open>
  The body of the loop for one line. The result is the fault that ended it, if any, and
  the record of calls; calls made before a fault stay made.
\<close>

definition process_line ::
  "('arch, 'ty) env \<Rightarrow> 'arch bv \<Rightarrow> pystr \<Rightarrow> ('arch, 'ty) call list
     \<Rightarrow> fault option \<times> ('arch, 'ty) call list" where
  "process_line e b line tr =
     (case rex_match line of
        None \<Rightarrow> (Some AttributeError, tr)
      | Some (typ, addr_s, name) \<Rightarrow>
          (case int16 addr_s of
             Inl f \<Rightarrow> (Some f, tr)
           | Inr off \<Rightarrow>
               let addr = start b + off;
                   tr1 = tr @ [DemangleMs (arch b) name]
               in (case demangle_ms e (arch b) name of
                     Inl f \<Rightarrow> (Some f, tr1)
                   | Inr (mangle_typ, mangle_res) \<Rightarrow>
                       let mangle_name = joined_name mangle_res
                       in if typ = lit ''F'' then
                            let tr2 = tr1 @ [CreateUserFunction addr,
                                   DefineUserSymbol (Symbol FunctionSymbol addr mangle_name name)]
                            in (case mangle_typ of
                                  None \<Rightarrow> (None, tr2)
                                | Some t \<Rightarrow>
                                    (case get_function_at tr2 addr of
                                       None \<Rightarrow> (Some AttributeError, tr2)
                                     | Some fa \<Rightarrow> (None, tr2 @ [SetFunctionType fa t])))
                          else if typ = lit ''G'' then
                            (None, tr1 @ [DefineUserSymbol (Symbol DataSymbol addr mangle_name name)])
                          else if typ = lit ''S'' then
                            (None, tr1 @ [SetCommentAt addr name])
                          else (None, tr1))))"

text \<open>\<open>for line in output.splitlines(): ...\<close>: the first fault ends the loop.\<close>

fun process_lines ::
  "('arch, 'ty) env \<Rightarrow> 'arch bv \<Rightarrow> pystr list \<Rightarrow> ('arch, 'ty) call list
     \<Rightarrow> fault option \<times> ('arch, 'ty) call list" where
  "process_lines e b [] tr = (None, tr)"
| "process_lines e b (line # rest) tr =
     (case process_line e b line tr of
        (Some f, tr') \<Rightarrow> (Some f, tr')
      | (None, tr') \<Rightarrow> process_lines e b rest tr')"

text \<open>
  \<open>load_dbg_file(bv, function)\<close>. \<open>if dbg_file:\<close> is false for \<open>None\<close> and for the empty
  string. The second argument is not used.
\<close>

definition load_dbg_file ::
  "('arch, 'ty) env \<Rightarrow> 'arch bv \<Rightarrow> int \<Rightarrow> ('arch, 'ty) call list
     \<Rightarrow> fault option \<times> ('arch, 'ty) call list" where
  "load_dbg_file e b fn tr =
     (case get_open_filename_input e (lit ''Debug file'')
             (lit ''COFF Debug Files (*.dbg *.db_)'') of
        None \<Rightarrow> (None, tr)
      | Some dbg_file \<Rightarrow>
          if dbg_file = [] then (None, tr)
          else
            let argv = [lit ''dbgparse'', dbg_file];
                tr1 = tr @ [CheckOutput argv]
            in (case check_output e argv of
                  Inl f \<Rightarrow> (Some f, tr1)
                | Inr raw \<Rightarrow>
                    (case decode e raw of
                       Inl f \<Rightarrow> (Some f, tr1)
                     | Inr output \<Rightarrow> process_lines e b (splitlines output) tr1)))"

text \<open>The symbols that a sequence of calls defines, in order.\<close>

fun defined_symbols :: "('arch, 'ty) call list \<Rightarrow> symbol list" where
  "defined_symbols [] = []"
| "defined_symbols (DefineUserSymbol s # cs) = s # defined_symbols cs"
| "defined_symbols (c # cs) = defined_symbols cs"

text \<open>The calls made since the record was \<open>tr\<close>.\<close>

definition calls_since :: "'a list \<Rightarrow> 'a list \<Rightarrow> 'a list" where
  "calls_since tr tr' = drop (length tr) tr'"

section \<open>Reading the address as the specification words it\<close>

text \<open>
  The address field "interpreted as a hexadecimal integer": each digit is worth its
  place in \<open>0123456789abcdef\<close>, times sixteen to the number of digits after it.
\<close>

definition digit_of :: "nat \<Rightarrow> int" where
  "digit_of c = int (length (takeWhile (\<lambda>d. d \<noteq> c) (lit ''0123456789abcdef'')))"

fun hex_value :: "pystr \<Rightarrow> int" where
  "hex_value [] = 0"
| "hex_value (c # cs) = digit_of c * 16 ^ length cs + hex_value cs"

text \<open>
  The pattern as the specification words it, \<open><tag> <8-hex-digit-address> <name>\<close> with
  the tag one of F, G and S: a hexadecimal digit is one of \<open>0-9\<close>, \<open>a-f\<close> and \<open>A-F\<close>.
\<close>

definition is_hex_digit :: "nat \<Rightarrow> bool" where
  "is_hex_digit c \<longleftrightarrow>
     (of_char CHR ''0'' \<le> c \<and> c \<le> of_char CHR ''9'') \<or>
     (of_char CHR ''a'' \<le> c \<and> c \<le> of_char CHR ''f'') \<or>
     (of_char CHR ''A'' \<le> c \<and> c \<le> of_char CHR ''F'')"

definition spec_pattern :: "pystr \<Rightarrow> bool" where
  "spec_pattern line \<longleftrightarrow>
     11 \<le> length line \<and> is_tag (line ! 0) \<and> line ! 1 = of_char CHR '' '' \<and>
     list_all is_hex_digit (take 8 (drop 2 line)) \<and> line ! 10 = of_char CHR '' ''"

section \<open>Example surroundings\<close>

text \<open>
  Concrete services to run the command on: a dialog that returns \<open>picked\<close>, a tool whose
  output is the ASCII text \<open>out\<close>, and a demangler \<open>dm\<close>. The architecture is a unit
  value and a type descriptor is a number.
\<close>

definition example_env ::
  "pystr option \<Rightarrow> pystr \<Rightarrow> (pystr \<Rightarrow> fault + (nat option \<times> mangled)) \<Rightarrow> (unit, nat) env" where
  "example_env picked out dm =
     \<lparr> get_open_filename_input = (\<lambda>title flt. picked),
       check_output = (\<lambda>argv. Inr out),
       decode = (\<lambda>raw. Inr raw),
       demangle_ms = (\<lambda>a. dm) \<rparr>"

definition example_bv :: "unit bv" where
  "example_bv = \<lparr> start = 4194304, arch = () \<rparr>"

definition high_bv :: "unit bv" where
  "high_bv = \<lparr> start = 2 ^ 64, arch = () \<rparr>"

text \<open>Three lines of output, the second of which does not match the pattern.\<close>

definition example_output :: pystr where
  "example_output =
     lit ''G 0041c000 ?count@@3HA'' @ [10] @ lit ''bogus'' @ [10] @
     lit ''S 00401000 main.c:12'' @ [10]"

text \<open>A demangler that knows no name, one that knows every name, and one that raises.\<close>

definition demangle_unknown :: "pystr \<Rightarrow> fault + (nat option \<times> mangled)" where
  "demangle_unknown name = Inr (None, Flat name)"

definition demangle_known :: "pystr \<Rightarrow> fault + (nat option \<times> mangled)" where
  "demangle_known name = Inr (Some 7, Parts [lit ''ns'', lit ''cls'', lit ''f''])"

definition demangle_raises :: "pystr \<Rightarrow> fault + (nat option \<times> mangled)" where
  "demangle_raises name = Inl DemangleError"


section \<open>Facts about the text functions\<close>

lemma lit_tags:
  "lit ''F'' = [70]" "lit ''G'' = [71]" "lit ''S'' = [83]"
  by (simp_all add: lit_def)

lemma lit_append:
  "lit (x @ y) = lit x @ lit y"
  by (simp add: lit_def)

lemma is_lower_hex_cases:
  assumes "is_lower_hex c"
  shows "c \<in> {48, 49, 50, 51, 52, 53, 54, 55, 56, 57, 97, 98, 99, 100, 101, 102}"
proof -
  from assms have "(48 \<le> c \<and> c \<le> 57) \<or> (97 \<le> c \<and> c \<le> 102)"
    by (simp add: is_lower_hex_def)
  then show ?thesis by simp presburger
qed

lemma hex_digit_lower:
  assumes "is_lower_hex c"
  shows "hex_digit c = Some (nat (digit_of c))" and "0 \<le> digit_of c" and "digit_of c < 16"
  using is_lower_hex_cases [OF assms]
  by (auto simp: hex_digit_def digit_of_def lit_def)

lemma int16_from_lower:
  "list_all is_lower_hex a \<Longrightarrow> int16_from acc a = Inr (acc * 16 ^ length a + hex_value a)"
proof (induction a arbitrary: acc)
  case Nil
  then show ?case by simp
next
  case (Cons c cs)
  then have c: "hex_digit c = Some (nat (digit_of c))" "0 \<le> digit_of c"
    by (simp_all add: hex_digit_lower)
  from Cons have "int16_from (16 * acc + digit_of c) cs
      = Inr ((16 * acc + digit_of c) * 16 ^ length cs + hex_value cs)"
    by simp
  with c show ?case by (simp add: algebra_simps)
qed

lemma int16_lower:
  "list_all is_lower_hex a \<Longrightarrow> a \<noteq> [] \<Longrightarrow> int16 a = Inr (hex_value a)"
  by (simp add: int16_def int16_from_lower)

lemma hex_value_bounds:
  "list_all is_lower_hex a \<Longrightarrow> 0 \<le> hex_value a \<and> hex_value a < 16 ^ length a"
proof (induction a)
  case Nil
  then show ?case by simp
next
  case (Cons c cs)
  then have c: "0 \<le> digit_of c" "digit_of c \<le> 15"
    using hex_digit_lower(2,3) [of c] by simp_all
  from Cons have ih: "0 \<le> hex_value cs" "hex_value cs < 16 ^ length cs" by simp_all
  have m: "digit_of c * 16 ^ length cs \<le> 15 * 16 ^ length cs"
    using c by (intro mult_right_mono) simp_all
  have z: "0 \<le> digit_of c * 16 ^ length cs"
    using c by simp
  have "digit_of c * 16 ^ length cs + hex_value cs < 16 * 16 ^ length cs"
    using m ih by linarith
  moreover have "0 \<le> digit_of c * 16 ^ length cs + hex_value cs"
    using z ih by linarith
  ultimately show ?case by simp
qed

lemma splitlines_from_no_break:
  assumes "l \<in> set (splitlines_from cur s)" and "\<forall>c\<in>set cur. \<not> is_linebreak c"
  shows "\<forall>c\<in>set l. \<not> is_linebreak c"
  using assms
proof (induction cur s rule: splitlines_from.induct)
  case (1 cur)
  then show ?case by (cases "cur = []") simp_all
next
  case (2 cur c cs)
  note mem = "2.prems"(1) and cur = "2.prems"(2)
  have nil: "\<forall>c\<in>set ([]::pystr). \<not> is_linebreak c" by simp
  consider (cr) "c = 13" | (br) "c \<noteq> 13" "is_linebreak c" | (ch) "c \<noteq> 13" "\<not> is_linebreak c"
    by blast
  then show ?case
  proof cases
    case cr
    show ?thesis
    proof (cases cs)
      case Nil
      with cr mem have "l = cur" by simp
      with cur show ?thesis by simp
    next
      case (Cons d ds)
      show ?thesis
      proof (cases "d = 10")
        case True
        with cr Cons mem have "l = cur \<or> l \<in> set (splitlines_from [] ds)" by simp
        then show ?thesis
          using cur "2.IH"(1) [OF cr Cons True _ nil] by blast
      next
        case False
        with cr Cons mem have "l = cur \<or> l \<in> set (splitlines_from [] (d # ds))" by simp
        then show ?thesis
          using cur "2.IH"(2) [OF cr Cons False _ nil] by blast
      qed
    qed
  next
    case br
    with mem have "l = cur \<or> l \<in> set (splitlines_from [] cs)" by simp
    then show ?thesis
      using cur "2.IH"(3) [OF br _ nil] by blast
  next
    case ch
    with mem have m: "l \<in> set (splitlines_from (cur @ [c]) cs)" by simp
    from cur ch have "\<forall>x\<in>set (cur @ [c]). \<not> is_linebreak x" by simp
    with "2.IH"(4) [OF ch m] show ?thesis by blast
  qed
qed

lemma splitlines_no_break:
  "l \<in> set (splitlines s) \<Longrightarrow> c \<in> set l \<Longrightarrow> \<not> is_linebreak c"
  using splitlines_from_no_break [of l "[]" s] by (simp add: splitlines_def)

lemma splitlines_no_newline:
  "l \<in> set (splitlines s) \<Longrightarrow> 10 \<notin> set l"
  using splitlines_no_break [of l s 10] by (auto simp: is_linebreak_def)

section \<open>Facts about the pattern\<close>

lemma rex_tail_Some:
  assumes "rex_tail rest = Some name"
  shows "10 \<notin> set name" and "rest = name \<or> rest = name @ [10]"
proof -
  show "10 \<notin> set name"
    using assms by (auto simp: rex_tail_def split: if_splits)
  show "rest = name \<or> rest = name @ [10]"
  proof (cases "10 \<in> set rest")
    case False
    with assms show ?thesis by (simp add: rex_tail_def)
  next
    case True
    then have ne: "rest \<noteq> []" by auto
    from True assms have "last rest = 10" "name = butlast rest"
      by (auto simp: rex_tail_def split: if_splits)
    with append_butlast_last_id [OF ne] show ?thesis by simp
  qed
qed

lemma line_fields:
  assumes "11 \<le> length line"
  shows "line = take 1 line @ [line ! 1] @ take 8 (drop 2 line) @ [line ! 10] @ drop 11 line"
proof -
  have b: "drop 1 line = line ! 1 # drop 2 line"
    using assms Cons_nth_drop_Suc [of 1 line] by (simp add: numeral_2_eq_2)
  have c: "drop 10 line = line ! 10 # drop 11 line"
    using assms Cons_nth_drop_Suc [of 10 line] by simp
  have d: "drop 2 line = take 8 (drop 2 line) @ drop 10 line"
    using append_take_drop_id [of 8 "drop 2 line"] by simp
  have "line = take 1 line @ drop 1 line" by simp
  also have "\<dots> = take 1 line @ [line ! 1] @ drop 2 line" using b by simp
  also have "\<dots> = take 1 line @ [line ! 1] @ take 8 (drop 2 line) @ drop 10 line"
    using d by simp
  finally show ?thesis using c by simp
qed

lemma rex_match_Some:
  assumes "rex_match line = Some (typ, a, name)"
  shows "length a = 8"
    and "list_all is_lower_hex a"
    and "typ = lit ''F'' \<or> typ = lit ''G'' \<or> typ = lit ''S''"
    and "10 \<notin> set name"
    and "line = typ @ [32] @ a @ [32] @ name \<or> line = typ @ [32] @ a @ [32] @ name @ [10]"
proof -
  from assms have guard: "11 \<le> length line" "is_tag (line ! 0)" "line ! 1 = 32"
      "list_all is_lower_hex (take 8 (drop 2 line))" "line ! 10 = 32"
    by (simp_all add: rex_match_def split: if_splits)
  with assms have groups: "typ = take 1 line" "a = take 8 (drop 2 line)"
      and tail: "rex_tail (drop 11 line) = Some name"
    by (simp_all add: rex_match_def split: option.splits)
  show "length a = 8" using groups guard(1) by simp
  show "list_all is_lower_hex a" using groups guard(4) by simp
  have "take 1 line = [line ! 0]"
    using guard(1) by (cases line) simp_all
  then show "typ = lit ''F'' \<or> typ = lit ''G'' \<or> typ = lit ''S''"
    using groups guard(2) by (simp add: is_tag_def lit_def)
  show "10 \<notin> set name" using rex_tail_Some(1) [OF tail] .
  from line_fields [OF guard(1)] groups guard(3,5)
  have "line = typ @ [32] @ a @ [32] @ drop 11 line" by simp
  with rex_tail_Some(2) [OF tail]
  show "line = typ @ [32] @ a @ [32] @ name \<or> line = typ @ [32] @ a @ [32] @ name @ [10]"
    by auto
qed

lemma rex_match_int16:
  assumes "rex_match line = Some (typ, a, name)"
  shows "int16 a = Inr (hex_value a)"
proof -
  from rex_match_Some(1,2) [OF assms] have "list_all is_lower_hex a" "a \<noteq> []" by auto
  then show ?thesis by (rule int16_lower)
qed

lemma rex_match_fields:
  assumes "is_tag t" and "length a = 8" and "list_all is_lower_hex a" and "10 \<notin> set name"
  shows "rex_match (t # 32 # a @ 32 # name) = Some ([t], a, name)"
proof -
  let ?line = "t # 32 # a @ 32 # name"
  have "take 8 (drop 2 ?line) = a" using assms(2) by simp
  moreover have "?line ! 10 = 32" using assms(2) by (simp add: nth_append)
  moreover have "drop 11 ?line = name" using assms(2) by simp
  moreover have "rex_tail name = Some name" using assms(4) by (simp add: rex_tail_def)
  moreover have "11 \<le> length ?line" using assms(2) by simp
  ultimately show ?thesis
    using assms(1,3) by (simp add: rex_match_def)
qed

section \<open>Facts about one line and about the loop\<close>

lemma process_line_no_match:
  "rex_match line = None \<Longrightarrow> process_line e b line tr = (Some AttributeError, tr)"
  by (simp add: process_line_def)

lemma process_line_demangle_fault:
  assumes "rex_match line = Some (typ, a, name)"
    and "demangle_ms e (arch b) name = Inl f"
  shows "process_line e b line tr = (Some f, tr @ [DemangleMs (arch b) name])"
  using assms rex_match_int16 [OF assms(1)]
  by (simp add: process_line_def Let_def)

lemma process_line_F:
  assumes "rex_match line = Some (lit ''F'', a, name)"
    and "demangle_ms e (arch b) name = Inr (mangle_typ, res)"
  shows "process_line e b line tr =
     (None, tr @ [DemangleMs (arch b) name,
                  CreateUserFunction (start b + hex_value a),
                  DefineUserSymbol (Symbol FunctionSymbol (start b + hex_value a)
                                      (joined_name res) name)]
               @ (case mangle_typ of
                    None \<Rightarrow> []
                  | Some t \<Rightarrow> [SetFunctionType (start b + hex_value a) t]))"
  using assms rex_match_int16 [OF assms(1)]
  by (cases mangle_typ) (simp_all add: process_line_def get_function_at_def Let_def)

lemma process_line_G:
  assumes "rex_match line = Some (lit ''G'', a, name)"
    and "demangle_ms e (arch b) name = Inr (mangle_typ, res)"
  shows "process_line e b line tr =
     (None, tr @ [DemangleMs (arch b) name,
                  DefineUserSymbol (Symbol DataSymbol (start b + hex_value a)
                                      (joined_name res) name)])"
  using assms rex_match_int16 [OF assms(1)]
  by (simp add: process_line_def lit_tags Let_def)

lemma process_line_S:
  assumes "rex_match line = Some (lit ''S'', a, name)"
    and "demangle_ms e (arch b) name = Inr (mangle_typ, res)"
  shows "process_line e b line tr =
     (None, tr @ [DemangleMs (arch b) name, SetCommentAt (start b + hex_value a) name])"
  using assms rex_match_int16 [OF assms(1)]
  by (simp add: process_line_def lit_tags Let_def)

lemma process_lines_append:
  "process_lines e b (xs @ ys) tr =
     (case process_lines e b xs tr of
        (Some f, tr') \<Rightarrow> (Some f, tr')
      | (None, tr') \<Rightarrow> process_lines e b ys tr')"
proof (induction xs arbitrary: tr)
  case Nil
  then show ?case by simp
next
  case (Cons x xs)
  show ?case
  proof (cases "process_line e b x tr")
    case (Pair r tr1)
    then show ?thesis using Cons.IH [of tr1] by (cases r) simp_all
  qed
qed

lemma load_dbg_file_output:
  assumes "get_open_filename_input e (lit ''Debug file'')
             (lit ''COFF Debug Files (*.dbg *.db_)'') = Some dbg_file"
    and "dbg_file \<noteq> []"
    and "check_output e [lit ''dbgparse'', dbg_file] = Inr raw"
    and "decode e raw = Inr output"
  shows "load_dbg_file e b fn tr =
           process_lines e b (splitlines output) (tr @ [CheckOutput [lit ''dbgparse'', dbg_file]])"
  using assms by (simp add: load_dbg_file_def Let_def)

lemma process_lines_unmatched:
  assumes "rex_match bad = None"
  shows "process_lines e b (pre @ bad # post) tr =
           (case process_lines e b pre tr of
              (Some f, tr') \<Rightarrow> (Some f, tr')
            | (None, tr') \<Rightarrow> (Some AttributeError, tr'))"
proof -
  have "process_lines e b (bad # post) tr' = (Some AttributeError, tr')" for tr'
    using process_line_no_match [OF assms, of e b tr'] by simp
  then show ?thesis
    by (simp add: process_lines_append split: prod.splits option.splits)
qed

section \<open>Example lines\<close>

lemma example_F_match:
  "rex_match (lit ''F 0040a0b0 ?run@@YAXXZ'') = Some (lit ''F'', lit ''0040a0b0'', lit ''?run@@YAXXZ'')"
  by (simp add: rex_match_def rex_tail_def is_tag_def is_lower_hex_def lit_def)

lemma example_G_match:
  "rex_match (lit ''G 0041c000 ?count@@3HA'') = Some (lit ''G'', lit ''0041c000'', lit ''?count@@3HA'')"
  by (simp add: rex_match_def rex_tail_def is_tag_def is_lower_hex_def lit_def)

lemma example_S_match:
  "rex_match (lit ''S 00401000 main.c:12'') = Some (lit ''S'', lit ''00401000'', lit ''main.c:12'')"
  by (simp add: rex_match_def rex_tail_def is_tag_def is_lower_hex_def lit_def)

lemma example_hex_values:
  "hex_value (lit ''0040a0b0'') = 4235440"
  "hex_value (lit ''0041c000'') = 4308992"
  "hex_value (lit ''00401000'') = 4198400"
  by (simp_all add: digit_of_def lit_def)

lemma example_bv_fields:
  "start example_bv = 4194304" "arch example_bv = ()"
  by (simp_all add: example_bv_def)

section \<open>The claims\<close>

text \<open>
  C1. A line whose tag is F, once the demangler has returned for its name, is processed
  without a fault and makes exactly one function-creation call and exactly one
  symbol-definition call; the symbol is a FunctionSymbol, and both calls name the address
  \<open>bv.start\<close> plus the hexadecimal value of the address field.
\<close>

theorem tag_F_one_function_one_symbol:
  assumes "rex_match line = Some (lit ''F'', a, name)"
    and "demangle_ms e (arch b) name = Inr (mangle_typ, res)"
  shows "fst (process_line e b line tr) = None \<and>
         filter is_create (calls_since tr (snd (process_line e b line tr)))
           = [CreateUserFunction (start b + hex_value a)] \<and>
         filter is_define (calls_since tr (snd (process_line e b line tr)))
           = [DefineUserSymbol (Symbol FunctionSymbol (start b + hex_value a)
                                  (joined_name res) name)]"
  unfolding process_line_F [OF assms]
  by (cases mangle_typ) (simp_all add: calls_since_def)

theorem tag_F_one_function_one_symbol_witness:
  "fst (process_line (example_env None [] demangle_known) example_bv
          (lit ''F 0040a0b0 ?run@@YAXXZ'') []) = None \<and>
   filter is_create (calls_since []
       (snd (process_line (example_env None [] demangle_known) example_bv
          (lit ''F 0040a0b0 ?run@@YAXXZ'') [])))
     = [CreateUserFunction 8429744] \<and>
   filter is_define (calls_since []
       (snd (process_line (example_env None [] demangle_known) example_bv
          (lit ''F 0040a0b0 ?run@@YAXXZ'') [])))
     = [DefineUserSymbol (Symbol FunctionSymbol 8429744 (lit ''ns::cls::f'')
          (lit ''?run@@YAXXZ''))]"
proof -
  have d: "demangle_ms (example_env None [] demangle_known) (arch example_bv)
             (lit ''?run@@YAXXZ'') = Inr (Some 7, Parts [lit ''ns'', lit ''cls'', lit ''f''])"
    by (simp add: example_env_def demangle_known_def)
  show ?thesis
    using tag_F_one_function_one_symbol [OF example_F_match d, of "[]"]
    by (simp add: example_hex_values example_bv_def lit_append [symmetric])
qed

text \<open>
  C2. A line whose tag is G, once the demangler has returned for its name, is processed
  without a fault and makes exactly one symbol-definition call, of a DataSymbol, and no
  function-creation call.
\<close>

theorem tag_G_one_data_symbol:
  assumes "rex_match line = Some (lit ''G'', a, name)"
    and "demangle_ms e (arch b) name = Inr (mangle_typ, res)"
  shows "fst (process_line e b line tr) = None \<and>
         filter is_define (calls_since tr (snd (process_line e b line tr)))
           = [DefineUserSymbol (Symbol DataSymbol (start b + hex_value a)
                                  (joined_name res) name)] \<and>
         filter is_create (calls_since tr (snd (process_line e b line tr))) = []"
  unfolding process_line_G [OF assms]
  by (simp add: calls_since_def)

theorem tag_G_one_data_symbol_witness:
  "fst (process_line (example_env None [] demangle_unknown) example_bv
          (lit ''G 0041c000 ?count@@3HA'') []) = None \<and>
   filter is_define (calls_since []
       (snd (process_line (example_env None [] demangle_unknown) example_bv
          (lit ''G 0041c000 ?count@@3HA'') [])))
     = [DefineUserSymbol (Symbol DataSymbol 8503296 (lit ''?count@@3HA'')
          (lit ''?count@@3HA''))] \<and>
   filter is_create (calls_since []
       (snd (process_line (example_env None [] demangle_unknown) example_bv
          (lit ''G 0041c000 ?count@@3HA'') []))) = []"
proof -
  have d: "demangle_ms (example_env None [] demangle_unknown) (arch example_bv)
             (lit ''?count@@3HA'') = Inr (None, Flat (lit ''?count@@3HA''))"
    by (simp add: example_env_def demangle_unknown_def)
  show ?thesis
    using tag_G_one_data_symbol [OF example_G_match d, of "[]"]
    by (simp add: example_hex_values example_bv_def)
qed

text \<open>
  C3. A line of the tool's output whose tag is S, once the demangler has returned for
  its name, is processed without a fault and changes the host by exactly one call: a
  comment set at \<open>bv.start\<close> plus the hexadecimal value of the address field, whose text
  is the line from its twelfth character on, whatever the demangler returned.
\<close>

theorem tag_S_one_comment:
  assumes "line \<in> set (splitlines output)"
    and "rex_match line = Some (lit ''S'', a, name)"
    and "demangle_ms e (arch b) name = Inr (mangle_typ, res)"
  shows "fst (process_line e b line tr) = None \<and>
         filter is_comment (calls_since tr (snd (process_line e b line tr)))
           = [SetCommentAt (start b + hex_value a) (drop 11 line)] \<and>
         filter is_mutation (calls_since tr (snd (process_line e b line tr)))
           = [SetCommentAt (start b + hex_value a) (drop 11 line)]"
proof -
  have "10 \<notin> set line" using assms(1) by (rule splitlines_no_newline)
  with rex_match_Some(5) [OF assms(2)] have "line = lit ''S'' @ [32] @ a @ [32] @ name"
    by auto
  with rex_match_Some(1) [OF assms(2)] have "drop 11 line = name"
    by (simp add: lit_tags)
  then show ?thesis
    unfolding process_line_S [OF assms(2,3)]
    by (simp add: calls_since_def is_mutation_def)
qed

theorem tag_S_one_comment_witness:
  "lit ''S 00401000 main.c:12''
     \<in> set (splitlines (lit ''G 0041c000 ?count@@3HA'' @ [10] @ lit ''S 00401000 main.c:12'' @ [10])) \<and>
   fst (process_line (example_env None [] demangle_known) example_bv
          (lit ''S 00401000 main.c:12'') []) = None \<and>
   filter is_comment (calls_since []
       (snd (process_line (example_env None [] demangle_known) example_bv
          (lit ''S 00401000 main.c:12'') [])))
     = [SetCommentAt 8392704 (lit ''main.c:12'')] \<and>
   filter is_mutation (calls_since []
       (snd (process_line (example_env None [] demangle_known) example_bv
          (lit ''S 00401000 main.c:12'') [])))
     = [SetCommentAt 8392704 (lit ''main.c:12'')]"
proof -
  have l: "lit ''S 00401000 main.c:12''
     \<in> set (splitlines (lit ''G 0041c000 ?count@@3HA'' @ [10] @ lit ''S 00401000 main.c:12'' @ [10]))"
    by (simp add: splitlines_def lit_def is_linebreak_def)
  have d: "demangle_ms (example_env None [] demangle_known) (arch example_bv)
             (lit ''main.c:12'') = Inr (Some 7, Parts [lit ''ns'', lit ''cls'', lit ''f''])"
    by (simp add: example_env_def demangle_known_def)
  have n: "drop 11 (lit ''S 00401000 main.c:12'') = lit ''main.c:12''"
    by (simp add: lit_def)
  show ?thesis
    using l tag_S_one_comment [OF l example_S_match d, of "[]"]
    by (simp add: example_hex_values example_bv_def n)
qed

text \<open>
  C4. For a line that matches the pattern, every call that changes the host while the
  line is processed names the address \<open>bv.start\<close> plus the eight-digit address field read
  as a hexadecimal integer. Addresses are unbounded integers, so nothing is cut off.
\<close>

theorem host_calls_at_base_plus_hex:
  assumes "rex_match line = Some (typ, a, name)"
  shows "\<forall>c \<in> set (calls_since tr (snd (process_line e b line tr))).
           is_mutation c \<longrightarrow> call_addr c = Some (start b + hex_value a)"
proof (cases "demangle_ms e (arch b) name")
  case (Inl f)
  show ?thesis
    unfolding process_line_demangle_fault [OF assms Inl]
    by (simp add: calls_since_def is_mutation_def)
next
  case (Inr r)
  obtain mangle_typ res where r: "r = (mangle_typ, res)" by (cases r)
  note d = Inr [unfolded r]
  from rex_match_Some(3) [OF assms]
  consider (F) "typ = lit ''F''" | (G) "typ = lit ''G''" | (S) "typ = lit ''S''" by blast
  then show ?thesis
  proof cases
    case F
    show ?thesis
      unfolding process_line_F [OF assms [unfolded F] d]
      by (cases mangle_typ) (simp_all add: calls_since_def is_mutation_def)
  next
    case G
    show ?thesis
      unfolding process_line_G [OF assms [unfolded G] d]
      by (simp add: calls_since_def is_mutation_def)
  next
    case S
    show ?thesis
      unfolding process_line_S [OF assms [unfolded S] d]
      by (simp add: calls_since_def is_mutation_def)
  qed
qed

theorem host_calls_at_base_plus_hex_witness:
  "calls_since [] (snd (process_line (example_env None [] demangle_known) high_bv
       (lit ''F 0040a0b0 ?run@@YAXXZ'') []))
     = [DemangleMs () (lit ''?run@@YAXXZ''),
        CreateUserFunction 18446744073713787056,
        DefineUserSymbol (Symbol FunctionSymbol 18446744073713787056 (lit ''ns::cls::f'')
          (lit ''?run@@YAXXZ'')),
        SetFunctionType 18446744073713787056 7] \<and>
   map call_addr (filter is_mutation
       (calls_since [] (snd (process_line (example_env None [] demangle_known) high_bv
          (lit ''F 0040a0b0 ?run@@YAXXZ'') []))))
     = [Some (2 ^ 64 + 4235440), Some (2 ^ 64 + 4235440), Some (2 ^ 64 + 4235440)]"
proof -
  have d: "demangle_ms (example_env None [] demangle_known) (arch high_bv)
             (lit ''?run@@YAXXZ'') = Inr (Some 7, Parts [lit ''ns'', lit ''cls'', lit ''f''])"
    by (simp add: example_env_def demangle_known_def)
  have p: "calls_since [] (snd (process_line (example_env None [] demangle_known) high_bv
       (lit ''F 0040a0b0 ?run@@YAXXZ'') []))
     = [DemangleMs () (lit ''?run@@YAXXZ''),
        CreateUserFunction 18446744073713787056,
        DefineUserSymbol (Symbol FunctionSymbol 18446744073713787056 (lit ''ns::cls::f'')
          (lit ''?run@@YAXXZ'')),
        SetFunctionType 18446744073713787056 7]"
    unfolding process_line_F [OF example_F_match d]
    by (simp add: calls_since_def example_hex_values high_bv_def lit_append [symmetric])
  have q: "start high_bv + hex_value (lit ''0040a0b0'') = 2 ^ 64 + 4235440"
    by (simp add: example_hex_values high_bv_def)
  have "\<forall>c \<in> set [DemangleMs () (lit ''?run@@YAXXZ''),
        CreateUserFunction 18446744073713787056,
        DefineUserSymbol (Symbol FunctionSymbol 18446744073713787056 (lit ''ns::cls::f'')
          (lit ''?run@@YAXXZ'')),
        SetFunctionType 18446744073713787056 (7::nat)].
      is_mutation c \<longrightarrow> call_addr c = Some (2 ^ 64 + 4235440)"
    using host_calls_at_base_plus_hex [OF example_F_match,
        of "[]" "example_env None [] demangle_known" high_bv]
    unfolding p q .
  then have "map call_addr (filter is_mutation [DemangleMs () (lit ''?run@@YAXXZ''),
        CreateUserFunction 18446744073713787056,
        DefineUserSymbol (Symbol FunctionSymbol 18446744073713787056 (lit ''ns::cls::f'')
          (lit ''?run@@YAXXZ'')),
        SetFunctionType 18446744073713787056 (7::nat)])
     = [Some (2 ^ 64 + 4235440), Some (2 ^ 64 + 4235440), Some (2 ^ 64 + 4235440)]"
    by (simp add: is_mutation_def)
  with p show ?thesis by simp
qed

text \<open>
  C5. For a line that matches the pattern and for whose name the demangler returns: when
  the demangler gives a list of components, the symbol defined for the line has as its
  name the components joined with \<open>::\<close>; when it gives one string, the symbol has that
  string as its name. An F or G line defines one symbol and an S line none.
\<close>

theorem symbol_name_joined_or_flat:
  assumes "rex_match line = Some (typ, a, name)"
    and "demangle_ms e (arch b) name = Inr (mangle_typ, res)"
  shows "map short_name (defined_symbols (calls_since tr (snd (process_line e b line tr))))
           = (if typ = lit ''S'' then []
              else [case res of Parts xs \<Rightarrow> join (lit ''::'') xs | Flat s \<Rightarrow> s])"
proof -
  have j: "joined_name res = (case res of Parts xs \<Rightarrow> join (lit ''::'') xs | Flat s \<Rightarrow> s)"
    by (cases res) simp_all
  from rex_match_Some(3) [OF assms(1)]
  consider (F) "typ = lit ''F''" | (G) "typ = lit ''G''" | (S) "typ = lit ''S''" by blast
  then show ?thesis
  proof cases
    case F
    show ?thesis
      unfolding process_line_F [OF assms(1) [unfolded F] assms(2)]
      by (cases mangle_typ) (simp_all add: calls_since_def j F lit_tags)
  next
    case G
    show ?thesis
      unfolding process_line_G [OF assms(1) [unfolded G] assms(2)]
      by (simp add: calls_since_def j G lit_tags)
  next
    case S
    show ?thesis
      unfolding process_line_S [OF assms(1) [unfolded S] assms(2)]
      by (simp add: calls_since_def S)
  qed
qed

theorem symbol_name_joined_or_flat_witness:
  "map short_name (defined_symbols (calls_since []
       (snd (process_line (example_env None [] demangle_known) example_bv
          (lit ''G 0041c000 ?count@@3HA'') []))))
     = [lit ''ns::cls::f''] \<and>
   map short_name (defined_symbols (calls_since []
       (snd (process_line (example_env None [] demangle_unknown) example_bv
          (lit ''F 0040a0b0 ?run@@YAXXZ'') []))))
     = [lit ''?run@@YAXXZ'']"
proof -
  have d1: "demangle_ms (example_env None [] demangle_known) (arch example_bv)
             (lit ''?count@@3HA'') = Inr (Some 7, Parts [lit ''ns'', lit ''cls'', lit ''f''])"
    by (simp add: example_env_def demangle_known_def)
  have d2: "demangle_ms (example_env None [] demangle_unknown) (arch example_bv)
             (lit ''?run@@YAXXZ'') = Inr (None, Flat (lit ''?run@@YAXXZ''))"
    by (simp add: example_env_def demangle_unknown_def)
  show ?thesis
    using symbol_name_joined_or_flat [OF example_G_match d1, of "[]"]
      symbol_name_joined_or_flat [OF example_F_match d2, of "[]"]
    by (simp add: lit_tags lit_append [symmetric])
qed

text \<open>
  C9. For a line whose tag is F and for whose name the demangler returns, the type of
  the function is set exactly when the demangler's type descriptor is not \<open>None\<close>, and
  then to that descriptor at the function's address; with \<open>None\<close> no type is set. Either
  way the function is created, the symbol is defined and the line ends without a fault.
\<close>

theorem function_type_set_iff_descriptor:
  assumes "rex_match line = Some (lit ''F'', a, name)"
    and "demangle_ms e (arch b) name = Inr (mangle_typ, res)"
  shows "fst (process_line e b line tr) = None \<and>
         filter is_set_type (calls_since tr (snd (process_line e b line tr)))
           = (case mangle_typ of
                None \<Rightarrow> []
              | Some t \<Rightarrow> [SetFunctionType (start b + hex_value a) t]) \<and>
         (filter is_set_type (calls_since tr (snd (process_line e b line tr))) \<noteq> []
            \<longleftrightarrow> mangle_typ \<noteq> None) \<and>
         CreateUserFunction (start b + hex_value a)
           \<in> set (calls_since tr (snd (process_line e b line tr))) \<and>
         DefineUserSymbol (Symbol FunctionSymbol (start b + hex_value a) (joined_name res) name)
           \<in> set (calls_since tr (snd (process_line e b line tr)))"
  unfolding process_line_F [OF assms]
  by (cases mangle_typ) (simp_all add: calls_since_def)

theorem function_type_set_iff_descriptor_witness:
  "filter is_set_type (calls_since []
       (snd (process_line (example_env None [] demangle_known) example_bv
          (lit ''F 0040a0b0 ?run@@YAXXZ'') [])))
     = [SetFunctionType 8429744 7] \<and>
   filter is_set_type (calls_since []
       (snd (process_line (example_env None [] demangle_unknown) example_bv
          (lit ''F 0040a0b0 ?run@@YAXXZ'') [])))
     = [] \<and>
   CreateUserFunction 8429744 \<in> set (calls_since []
       (snd (process_line (example_env None [] demangle_unknown) example_bv
          (lit ''F 0040a0b0 ?run@@YAXXZ'') [])))"
proof -
  have d1: "demangle_ms (example_env None [] demangle_known) (arch example_bv)
             (lit ''?run@@YAXXZ'') = Inr (Some 7, Parts [lit ''ns'', lit ''cls'', lit ''f''])"
    by (simp add: example_env_def demangle_known_def)
  have d2: "demangle_ms (example_env None [] demangle_unknown) (arch example_bv)
             (lit ''?run@@YAXXZ'') = Inr (None, Flat (lit ''?run@@YAXXZ''))"
    by (simp add: example_env_def demangle_unknown_def)
  show ?thesis
    using function_type_set_iff_descriptor [OF example_F_match d1, of "[]"]
      function_type_set_iff_descriptor [OF example_F_match d2, of "[]"]
    by (simp add: example_hex_values example_bv_def)
qed

text \<open>
  C6, as claimed, fails: a line with the tag F, a space, the eight hexadecimal digits
  \<open>0040A0B0\<close>, a space and a name fits the pattern of the specification and is a line of
  the tool's output, but the regular expression takes \<open>0-9\<close> and \<open>a-f\<close> only. The match is
  \<open>None\<close>, and the line ends the command with an AttributeError and no call.
\<close>

theorem upper_hex_line_not_matched:
  "spec_pattern (lit ''F 0040A0B0 ?run@@YAXXZ'') \<and>
   splitlines (lit ''F 0040A0B0 ?run@@YAXXZ'' @ [10]) = [lit ''F 0040A0B0 ?run@@YAXXZ''] \<and>
   rex_match (lit ''F 0040A0B0 ?run@@YAXXZ'') = None \<and>
   process_line (example_env None [] demangle_unknown) example_bv
     (lit ''F 0040A0B0 ?run@@YAXXZ'') [] = (Some AttributeError, [])"
proof -
  have m: "rex_match (lit ''F 0040A0B0 ?run@@YAXXZ'') = None"
    by (simp add: rex_match_def is_tag_def is_lower_hex_def lit_def)
  have p: "spec_pattern (lit ''F 0040A0B0 ?run@@YAXXZ'')"
    by (simp add: spec_pattern_def is_tag_def is_hex_digit_def lit_def)
  have l: "splitlines (lit ''F 0040A0B0 ?run@@YAXXZ'' @ [10]) = [lit ''F 0040A0B0 ?run@@YAXXZ'']"
    by (simp add: splitlines_def is_linebreak_def lit_def)
  from m p l show ?thesis by (simp add: process_line_def)
qed

text \<open>
  C6, amended. Every line of the tool's output that is a tag F, G or S, a space, eight
  digits out of \<open>0-9\<close> and \<open>a-f\<close> (lower case), a space and a name yields the one triple of
  that tag, those digits and that name. The triple is then dispatched: the name goes to
  the demangler first, and when the demangler returns, the line ends without a fault and
  has changed the host.
\<close>

theorem lower_hex_line_yields_triple:
  assumes "line \<in> set (splitlines output)"
    and "is_tag t" and "length a = 8" and "list_all is_lower_hex a"
    and "line = [t] @ lit '' '' @ a @ lit '' '' @ name"
  shows "rex_match line = Some ([t], a, name) \<and>
         hd (calls_since tr (snd (process_line e b line tr))) = DemangleMs (arch b) name \<and>
         (demangle_ms e (arch b) name = Inr (mangle_typ, res) \<longrightarrow>
            fst (process_line e b line tr) = None \<and>
            filter is_mutation (calls_since tr (snd (process_line e b line tr))) \<noteq> [])"
proof -
  have form: "line = t # 32 # a @ 32 # name"
    using assms(5) by (simp add: lit_def)
  have "10 \<notin> set line" using assms(1) by (rule splitlines_no_newline)
  then have "10 \<notin> set name" using form by simp
  from rex_match_fields [OF assms(2,3,4) this]
  have m: "rex_match line = Some ([t], a, name)" using form by simp
  from assms(2)
  consider (F) "[t] = lit ''F''" | (G) "[t] = lit ''G''" | (S) "[t] = lit ''S''"
    by (auto simp: is_tag_def lit_def)
  then have rest: "hd (calls_since tr (snd (process_line e b line tr))) = DemangleMs (arch b) name \<and>
         (demangle_ms e (arch b) name = Inr (mangle_typ, res) \<longrightarrow>
            fst (process_line e b line tr) = None \<and>
            filter is_mutation (calls_since tr (snd (process_line e b line tr))) \<noteq> [])"
  proof cases
    case F
    show ?thesis
    proof (cases "demangle_ms e (arch b) name")
      case (Inl f)
      show ?thesis
        unfolding process_line_demangle_fault [OF m Inl]
        using Inl by (simp add: calls_since_def)
    next
      case (Inr r)
      obtain mt rs where r: "r = (mt, rs)" by (cases r)
      show ?thesis
        unfolding process_line_F [OF m [unfolded F] Inr [unfolded r]]
        by (cases mt) (simp_all add: calls_since_def is_mutation_def)
    qed
  next
    case G
    show ?thesis
    proof (cases "demangle_ms e (arch b) name")
      case (Inl f)
      show ?thesis
        unfolding process_line_demangle_fault [OF m Inl]
        using Inl by (simp add: calls_since_def)
    next
      case (Inr r)
      obtain mt rs where r: "r = (mt, rs)" by (cases r)
      show ?thesis
        unfolding process_line_G [OF m [unfolded G] Inr [unfolded r]]
        by (simp add: calls_since_def is_mutation_def)
    qed
  next
    case S
    show ?thesis
    proof (cases "demangle_ms e (arch b) name")
      case (Inl f)
      show ?thesis
        unfolding process_line_demangle_fault [OF m Inl]
        using Inl by (simp add: calls_since_def)
    next
      case (Inr r)
      obtain mt rs where r: "r = (mt, rs)" by (cases r)
      show ?thesis
        unfolding process_line_S [OF m [unfolded S] Inr [unfolded r]]
        by (simp add: calls_since_def is_mutation_def)
    qed
  qed
  with m show ?thesis by blast
qed

theorem lower_hex_line_yields_triple_witness:
  "lit ''G 0041c000 ?count@@3HA''
     \<in> set (splitlines (lit ''G 0041c000 ?count@@3HA'' @ [13, 10] @ lit ''S 00401000 main.c:12'')) \<and>
   rex_match (lit ''G 0041c000 ?count@@3HA'')
     = Some (lit ''G'', lit ''0041c000'', lit ''?count@@3HA'') \<and>
   hd (calls_since [] (snd (process_line (example_env None [] demangle_unknown) example_bv
          (lit ''G 0041c000 ?count@@3HA'') [])))
     = DemangleMs () (lit ''?count@@3HA'') \<and>
   fst (process_line (example_env None [] demangle_unknown) example_bv
          (lit ''G 0041c000 ?count@@3HA'') []) = None \<and>
   filter is_mutation (calls_since [] (snd (process_line (example_env None [] demangle_unknown)
          example_bv (lit ''G 0041c000 ?count@@3HA'') []))) \<noteq> []"
proof -
  have l: "lit ''G 0041c000 ?count@@3HA''
     \<in> set (splitlines (lit ''G 0041c000 ?count@@3HA'' @ [13, 10] @ lit ''S 00401000 main.c:12''))"
    by (simp add: splitlines_def lit_def is_linebreak_def)
  have t: "is_tag 71" by (simp add: is_tag_def)
  have n: "length (lit ''0041c000'') = 8" by (simp add: lit_def)
  have h: "list_all is_lower_hex (lit ''0041c000'')" by (simp add: lit_def is_lower_hex_def)
  have f: "lit ''G 0041c000 ?count@@3HA''
             = [71] @ lit '' '' @ lit ''0041c000'' @ lit '' '' @ lit ''?count@@3HA''"
    by (simp add: lit_def)
  have d: "demangle_ms (example_env None [] demangle_unknown) (arch example_bv)
             (lit ''?count@@3HA'') = Inr (None, Flat (lit ''?count@@3HA''))"
    by (simp add: example_env_def demangle_unknown_def)
  show ?thesis
    using l d lower_hex_line_yields_triple [OF l t n h f, of "[]"
        "example_env None [] demangle_unknown" example_bv None "Flat (lit ''?count@@3HA'')"]
    by (simp add: lit_tags example_bv_def)
qed

text \<open>
  C7. When the tool's output has a line that does not match the pattern, the command
  ends with a fault. The result is the one of processing the lines before it, with an
  AttributeError raised at the unmatched line when none of them faulted: the lines after
  it play no part, and the unmatched line adds no call to those made before it.
\<close>

theorem unmatched_line_aborts:
  assumes "get_open_filename_input e (lit ''Debug file'')
             (lit ''COFF Debug Files (*.dbg *.db_)'') = Some dbg_file"
    and "dbg_file \<noteq> []"
    and "check_output e [lit ''dbgparse'', dbg_file] = Inr raw"
    and "decode e raw = Inr output"
    and "splitlines output = pre @ bad # post"
    and "rex_match bad = None"
  shows "fst (load_dbg_file e b fn tr) \<noteq> None \<and>
         load_dbg_file e b fn tr =
           (case process_lines e b pre (tr @ [CheckOutput [lit ''dbgparse'', dbg_file]]) of
              (Some f, tr') \<Rightarrow> (Some f, tr')
            | (None, tr') \<Rightarrow> (Some AttributeError, tr'))"
  unfolding load_dbg_file_output [OF assms(1-4)] assms(5) process_lines_unmatched [OF assms(6)]
  by (simp split: prod.splits option.splits)

theorem unmatched_line_aborts_witness:
  "load_dbg_file (example_env (Some (lit ''a.dbg'')) example_output demangle_unknown)
     example_bv 0 []
   = (Some AttributeError,
      [CheckOutput [lit ''dbgparse'', lit ''a.dbg''],
       DemangleMs () (lit ''?count@@3HA''),
       DefineUserSymbol (Symbol DataSymbol 8503296 (lit ''?count@@3HA'') (lit ''?count@@3HA''))])"
proof -
  let ?e = "example_env (Some (lit ''a.dbg'')) example_output demangle_unknown"
  have a1: "get_open_filename_input ?e (lit ''Debug file'')
              (lit ''COFF Debug Files (*.dbg *.db_)'') = Some (lit ''a.dbg'')"
    by (simp add: example_env_def)
  have a2: "lit ''a.dbg'' \<noteq> []" by (simp add: lit_def)
  have a3: "check_output ?e [lit ''dbgparse'', lit ''a.dbg''] = Inr example_output"
    by (simp add: example_env_def)
  have a4: "decode ?e example_output = Inr example_output"
    by (simp add: example_env_def)
  have a5: "splitlines example_output
              = [lit ''G 0041c000 ?count@@3HA''] @ lit ''bogus'' # [lit ''S 00401000 main.c:12'']"
    by (simp add: example_output_def splitlines_def lit_def is_linebreak_def)
  have a6: "rex_match (lit ''bogus'') = None"
    by (simp add: rex_match_def lit_def)
  have d: "demangle_ms ?e (arch example_bv) (lit ''?count@@3HA'')
             = Inr (None, Flat (lit ''?count@@3HA''))"
    by (simp add: example_env_def demangle_unknown_def)
  have p: "process_line ?e example_bv (lit ''G 0041c000 ?count@@3HA'')
             [CheckOutput [lit ''dbgparse'', lit ''a.dbg'']]
           = (None, [CheckOutput [lit ''dbgparse'', lit ''a.dbg''],
                DemangleMs () (lit ''?count@@3HA''),
                DefineUserSymbol (Symbol DataSymbol 8503296 (lit ''?count@@3HA'')
                  (lit ''?count@@3HA''))])"
    by (simp add: process_line_G [OF example_G_match d] example_hex_values example_bv_fields)
  show ?thesis
    using unmatched_line_aborts [OF a1 a2 a3 a4 a5 a6, of example_bv 0 "[]"]
    by (simp add: p)
qed

text \<open>
  C8. When the file dialog returns no file, \<open>None\<close> for a cancelled dialog or an empty
  path, the command does nothing: it ends without a fault and makes no call at all, so
  no subprocess is started and the host is not changed.
\<close>

theorem no_file_no_processing:
  assumes "get_open_filename_input e (lit ''Debug file'')
             (lit ''COFF Debug Files (*.dbg *.db_)'') = None
         \<or> get_open_filename_input e (lit ''Debug file'')
             (lit ''COFF Debug Files (*.dbg *.db_)'') = Some []"
  shows "load_dbg_file e b fn tr = (None, tr) \<and>
         filter is_subprocess (calls_since tr (snd (load_dbg_file e b fn tr))) = [] \<and>
         filter is_mutation (calls_since tr (snd (load_dbg_file e b fn tr))) = []"
proof -
  from assms have "load_dbg_file e b fn tr = (None, tr)"
    by (auto simp: load_dbg_file_def)
  then show ?thesis by (simp add: calls_since_def)
qed

theorem no_file_no_processing_witness:
  "load_dbg_file (example_env None (lit ''G 0041c000 ?count@@3HA'') demangle_unknown)
     example_bv 0 [CreateUserFunction 1]
     = (None, [CreateUserFunction 1]) \<and>
   load_dbg_file (example_env (Some []) (lit ''G 0041c000 ?count@@3HA'') demangle_unknown)
     example_bv 0 [CreateUserFunction 1]
     = (None, [CreateUserFunction 1])"
proof -
  have c: "get_open_filename_input
             (example_env None (lit ''G 0041c000 ?count@@3HA'') demangle_unknown)
             (lit ''Debug file'') (lit ''COFF Debug Files (*.dbg *.db_)'') = None"
    by (simp add: example_env_def)
  have n: "get_open_filename_input
             (example_env (Some []) (lit ''G 0041c000 ?count@@3HA'') demangle_unknown)
             (lit ''Debug file'') (lit ''COFF Debug Files (*.dbg *.db_)'') = Some []"
    by (simp add: example_env_def)
  show ?thesis
    using no_file_no_processing [OF disjI1 [OF c], of example_bv 0 "[CreateUserFunction 1]"]
      no_file_no_processing [OF disjI2 [OF n], of example_bv 0 "[CreateUserFunction 1]"]
    by simp
qed

text \<open>
  C10. For a line that matches the pattern, whatever its tag, the demangler is called
  on the name field. When that call raises, the loop ends there with the fault: the
  demangler call is the only call of the line and no later line is processed. This
  holds for an S line too, whose comment would not use the demangler's result.
\<close>

theorem demangler_called_for_every_tag:
  assumes "rex_match line = Some (typ, a, name)"
  shows "DemangleMs (arch b) name \<in> set (calls_since tr (snd (process_line e b line tr))) \<and>
         (demangle_ms e (arch b) name = Inl f \<longrightarrow>
            process_lines e b (line # rest) tr = (Some f, tr @ [DemangleMs (arch b) name]))"
proof (cases "demangle_ms e (arch b) name")
  case (Inl g)
  show ?thesis
    using Inl by (simp add: process_line_demangle_fault [OF assms Inl] calls_since_def)
next
  case (Inr r)
  obtain mangle_typ res where r: "r = (mangle_typ, res)" by (cases r)
  note d = Inr [unfolded r]
  from rex_match_Some(3) [OF assms]
  consider (F) "typ = lit ''F''" | (G) "typ = lit ''G''" | (S) "typ = lit ''S''" by blast
  then have "DemangleMs (arch b) name \<in> set (calls_since tr (snd (process_line e b line tr)))"
  proof cases
    case F
    show ?thesis
      unfolding process_line_F [OF assms [unfolded F] d]
      by (simp add: calls_since_def)
  next
    case G
    show ?thesis
      unfolding process_line_G [OF assms [unfolded G] d]
      by (simp add: calls_since_def)
  next
    case S
    show ?thesis
      unfolding process_line_S [OF assms [unfolded S] d]
      by (simp add: calls_since_def)
  qed
  with Inr show ?thesis by simp
qed

theorem demangler_called_for_every_tag_witness:
  "DemangleMs () (lit ''main.c:12'')
     \<in> set (calls_since [] (snd (process_line (example_env None [] demangle_raises) example_bv
          (lit ''S 00401000 main.c:12'') []))) \<and>
   process_lines (example_env None [] demangle_raises) example_bv
     [lit ''S 00401000 main.c:12'', lit ''G 0041c000 ?count@@3HA''] []
     = (Some DemangleError, [DemangleMs () (lit ''main.c:12'')])"
proof -
  have d: "demangle_ms (example_env None [] demangle_raises) (arch example_bv)
             (lit ''main.c:12'') = Inl DemangleError"
    by (simp add: example_env_def demangle_raises_def)
  show ?thesis
    using d demangler_called_for_every_tag [OF example_S_match,
        of example_bv "[]" "example_env None [] demangle_raises" DemangleError
           "[lit ''G 0041c000 ?count@@3HA'']"]
    by (simp add: example_bv_def)
qed

end
